theory Spec2Isabelle
  imports Complex_Main "HOL-Library.Multiset" "HOL-Library.AList"
begin

section \<open>The rating formula (SolverHelper.getRating)\<close>

text \<open>
  JavaScript numbers are modelled exactly: an integer-valued number is an \<open>int\<close>, a
  number that arises from a division is a \<open>rat\<close>. Ratings are integers (the data
  model of the library), so the sum of a roster is an integer and the only fractions
  of the formula are multiples of 1/11: the value that \<open>Math.round\<close> receives is never
  closer than 1/22 to a tie, and the quotient that \<open>Math.floor\<close> receives is an integer
  or at least 1/11 away from one, so the rounding of the doubles does not change the
  result.

  \<open>null\<close> and \<open>undefined\<close> as the argument of \<open>getRating\<close> are \<open>None\<close>.
\<close>

text \<open>
  \<^verbatim>\<open>while (paddedRatings.length < 11) { paddedRatings.push(0); }\<close>
\<close>

function padRatings :: "int list \<Rightarrow> int list" where
  "padRatings paddedRatings =
     (if length paddedRatings < 11 then padRatings (paddedRatings @ [0]) else paddedRatings)"
  by pat_completeness auto
termination
  by (relation "measure (\<lambda>paddedRatings. 11 - length paddedRatings)") auto

declare padRatings.simps [simp del]

text \<open>\<open>Math.round\<close>: the nearest integer, a tie going up.\<close>

definition math_round :: "rat \<Rightarrow> int" where
  "math_round x = \<lfloor>x + 1 / 2\<rfloor>"

definition getRating :: "int list option \<Rightarrow> int" where
  "getRating ratings =
     (case ratings of
        None \<Rightarrow> 0
      | Some rs \<Rightarrow>
          if length rs = 0 then 0
          else
            let paddedRatings = padRatings rs;
                sum = foldl (\<lambda>acc curr. acc + curr) 0 paddedRatings;
                avg = (of_int sum :: rat) / 11;
                correctionFactor =
                  foldl (\<lambda>acc curr. if of_int curr > avg then acc + (of_int curr - avg) else acc)
                    0 paddedRatings;
                sumWithCorrection = of_int sum + correctionFactor;
                rounded = math_round sumWithCorrection
            in \<lfloor>(of_int rounded :: rat) / 11\<rfloor>)"





section \<open>JavaScript values, objects and array operations\<close>

text \<open>
  The arguments of the public entry points are not typed by the language, and the
  validation of \<open>findSquadSolutions\<close> is about exactly that. The values an argument can
  take are modelled by \<open>undefined\<close>, \<open>null\<close> and the integer-valued numbers; an argument
  that should be an array is either such a value or an array of such values. Strings,
  booleans, \<open>NaN\<close>, fractions and nested arrays are outside the model. A number \<open>JNum n\<close>
  stands for the JavaScript number of value \<open>n\<close> (a safe integer).
\<close>

datatype jsval = JUndefined | JNull | JNum int

datatype jsarg = NotArray jsval | JArray "jsval list"

datatype js_error = TypeError

text \<open>\<open>typeof v === 'number'\<close>, truthiness, and the numeric comparisons after \<open>ToNumber\<close>
  (\<open>undefined\<close> is \<open>NaN\<close>, which compares false with everything; \<open>null\<close> is 0).\<close>

definition typeof_number :: "jsval \<Rightarrow> bool" where
  "typeof_number v = (case v of JNum _ \<Rightarrow> True | _ \<Rightarrow> False)"

definition truthy :: "jsval \<Rightarrow> bool" where
  "truthy v = (case v of JNum n \<Rightarrow> n \<noteq> 0 | _ \<Rightarrow> False)"

definition ToNumber :: "jsval \<Rightarrow> int option" where
  "ToNumber v = (case v of JUndefined \<Rightarrow> None | JNull \<Rightarrow> Some 0 | JNum n \<Rightarrow> Some n)"

definition js_lt :: "jsval \<Rightarrow> jsval \<Rightarrow> bool" where
  "js_lt a b = (case (ToNumber a, ToNumber b) of (Some x, Some y) \<Rightarrow> x < y | _ \<Rightarrow> False)"

definition js_gt :: "jsval \<Rightarrow> jsval \<Rightarrow> bool" where
  "js_gt a b = js_lt b a"

definition js_le :: "jsval \<Rightarrow> jsval \<Rightarrow> bool" where
  "js_le a b = (case (ToNumber a, ToNumber b) of (Some x, Some y) \<Rightarrow> x \<le> y | _ \<Rightarrow> False)"

definition js_ge :: "jsval \<Rightarrow> jsval \<Rightarrow> bool" where
  "js_ge a b = js_le b a"

text \<open>\<open>String(v)\<close>, as a template literal prints a value.\<close>

fun nat_digits :: "nat \<Rightarrow> string" where
  "nat_digits n =
     (if n < 10 then [''0123456789'' ! n] else nat_digits (n div 10) @ [''0123456789'' ! (n mod 10)])"

declare nat_digits.simps [simp del]

definition int_to_string :: "int \<Rightarrow> string" where
  "int_to_string n = (if n < 0 then ''-'' @ nat_digits (nat (- n)) else nat_digits (nat n))"

definition js_to_string :: "jsval \<Rightarrow> string" where
  "js_to_string v =
     (case v of JUndefined \<Rightarrow> ''undefined'' | JNull \<Rightarrow> ''null'' | JNum n \<Rightarrow> int_to_string n)"

text \<open>\<open>xs.join(sep)\<close> on an array of strings.\<close>

fun js_join :: "string \<Rightarrow> string list \<Rightarrow> string" where
  "js_join sep [] = []"
| "js_join sep [x] = x"
| "js_join sep (x # y # ys) = x @ sep @ js_join sep (y # ys)"

text \<open>
  \<open>v.length\<close>: a \<open>TypeError\<close> on \<open>null\<close> and \<open>undefined\<close>, \<open>undefined\<close> on a number, the
  length of an array.
\<close>

definition js_length :: "jsarg \<Rightarrow> js_error + jsval" where
  "js_length v =
     (case v of
        NotArray JUndefined \<Rightarrow> Inl TypeError
      | NotArray JNull \<Rightarrow> Inl TypeError
      | NotArray (JNum _) \<Rightarrow> Inr JUndefined
      | JArray xs \<Rightarrow> Inr (JNum (int (length xs))))"

text \<open>
  An object whose keys are ratings is an association list in the order the keys were
  created. \<open>Object.entries\<close> and \<open>Object.keys\<close> list the keys that are array indices
  (0 to 2^32 - 2) first, in ascending order, and then the other keys in creation order.
\<close>

definition is_array_index :: "int \<Rightarrow> bool" where
  "is_array_index k = (0 \<le> k \<and> k < 4294967295)"

definition object_entries :: "(int \<times> 'v) list \<Rightarrow> (int \<times> 'v) list" where
  "object_entries obj =
     sort_key fst (filter (\<lambda>e. is_array_index (fst e)) obj)
       @ filter (\<lambda>e. \<not> is_array_index (fst e)) obj"

text \<open>\<open>obj[k] || 0\<close> on an object of numbers.\<close>

definition get_or_0 :: "('k \<times> nat) list \<Rightarrow> 'k \<Rightarrow> nat" where
  "get_or_0 obj k = (case map_of obj k of None \<Rightarrow> 0 | Some c \<Rightarrow> if c = 0 then 0 else c)"

text \<open>\<open>xs.slice(0, n)\<close>: a negative \<open>n\<close> counts from the end.\<close>

definition slice0 :: "'a list \<Rightarrow> int \<Rightarrow> 'a list" where
  "slice0 xs n = (if n < 0 then take (nat (int (length xs) + n)) xs else take (nat n) xs)"

text \<open>
  \<open>xs.sort(cmp)\<close> is stable, and for a comparator that is a consistent ordering its
  result is the one stable sorted arrangement of \<open>xs\<close>; insertion from the left
  computes it. Each element goes behind every element it does not precede.
\<close>

fun insert_by :: "('a \<Rightarrow> 'a \<Rightarrow> int) \<Rightarrow> 'a \<Rightarrow> 'a list \<Rightarrow> 'a list" where
  "insert_by cmp x [] = [x]"
| "insert_by cmp x (y # ys) = (if cmp x y < 0 then x # y # ys else y # insert_by cmp x ys)"

definition js_sort :: "('a \<Rightarrow> 'a \<Rightarrow> int) \<Rightarrow> 'a list \<Rightarrow> 'a list" where
  "js_sort cmp xs = foldl (\<lambda>sorted_prefix x. insert_by cmp x sorted_prefix) [] xs"

section \<open>SolverHelper: prices and counts\<close>

text \<open>\<open>priceByRating\<close> is an object from ratings to integer prices, a map.\<close>

definition getPrice :: "int list \<Rightarrow> (int \<Rightarrow> int option) \<Rightarrow> int" where
  "getPrice ratings priceByRating =
     foldl (\<lambda>acc curr. acc + (case priceByRating curr of None \<Rightarrow> 0 | Some p \<Rightarrow> p)) 0 ratings"

definition countRatings :: "'k list \<Rightarrow> ('k \<times> nat) list" where
  "countRatings ratings =
     foldl (\<lambda>acc rating. AList.update rating (get_or_0 acc rating + 1) acc) [] ratings"


section \<open>The multiset enumerator (SolverHelper.getMultisubsets)\<close>

text \<open>
  A generator is the list of what it yields, in the order it yields it. The size \<open>n\<close>
  is a natural number.
\<close>

definition prependNTimes :: "'a \<Rightarrow> 'a list list \<Rightarrow> nat \<Rightarrow> 'a list list" where
  "prependNTimes a xss n = (let prefix = replicate n a in map (\<lambda>xs. prefix @ xs) xss)"

fun multisubsetsImpl :: "'a list \<Rightarrow> nat \<Rightarrow> 'a list list" where
  "multisubsetsImpl the_set n =
     (if n = 0 then [[]]
      else case the_set of
             [] \<Rightarrow> []
           | x # rest \<Rightarrow>
               concat (map (\<lambda>i. prependNTimes x (multisubsetsImpl rest (n - i)) i) [0..<n + 1]))"

declare multisubsetsImpl.simps [simp del]

definition getMultisubsets :: "'a list \<Rightarrow> nat \<Rightarrow> 'a list list" where
  "getMultisubsets the_set n = multisubsetsImpl the_set n"

section \<open>The precomputed combination table (OptimalCombinations.js)\<close>

text \<open>Each combination is the object literal of the source, its keys in the order written.\<close>

type_synonym combination = "(int \<times> nat) list"

definition OPTIMAL_SBC_COMBINATIONS :: "(int \<times> combination list) list" where
  "OPTIMAL_SBC_COMBINATIONS =
     [
       (80,
         [[(82, 1), (81, 2), (80, 8)],
          [(83, 1), (80, 10)],
          [(82, 2), (80, 9)],
          [(81, 4), (80, 7)],
          [(84, 1), (79, 10)],
          [(82, 3), (79, 8)]]),
       (81,
         [[(82, 3), (81, 8)],
          [(83, 1), (81, 10)],
          [(84, 1), (80, 10)],
          [(82, 5), (80, 6)],
          [(83, 2), (80, 9)],
          [(85, 1), (79, 10)]]),
       (82,
         [[(83, 2), (82, 9)],
          [(84, 1), (82, 10)],
          [(83, 4), (81, 7)],
          [(85, 1), (81, 10)],
          [(84, 2), (81, 9)],
          [(86, 1), (80, 10)]]),
       (83,
         [[(83, 9), (82, 2)],
          [(84, 1), (83, 6), (82, 4)],
          [(85, 1), (82, 10)],
          [(84, 2), (83, 7), (82, 2)],
          [(86, 1), (82, 10)],
          [(84, 3), (82, 8)]]),
       (84,
         [[(84, 11)],
          [(85, 1), (84, 8), (83, 2)],
          [(86, 1), (83, 10)],
          [(85, 2), (84, 7), (83, 2)],
          [(87, 1), (83, 10)],
          [(85, 3), (83, 8)]]),
       (85,
         [[(85, 11)],
          [(86, 1), (85, 8), (84, 2)],
          [(87, 1), (84, 10)],
          [(86, 2), (85, 7), (84, 2)],
          [(88, 1), (84, 10)],
          [(86, 3), (84, 8)]]),
       (86,
         [[(86, 11)],
          [(87, 1), (86, 8), (85, 2)],
          [(88, 1), (85, 10)],
          [(87, 2), (86, 7), (85, 2)],
          [(89, 1), (85, 10)],
          [(87, 3), (85, 8)]]),
       (87,
         [[(87, 11)],
          [(88, 1), (87, 8), (86, 2)],
          [(89, 1), (86, 10)],
          [(88, 2), (87, 7), (86, 2)],
          [(90, 1), (86, 10)],
          [(88, 3), (86, 8)]]),
       (88,
         [[(88, 11)],
          [(89, 1), (88, 8), (87, 2)],
          [(90, 1), (87, 10)],
          [(89, 2), (88, 7), (87, 2)],
          [(91, 1), (87, 10)],
          [(89, 3), (87, 8)]]),
       (89,
         [[(89, 11)],
          [(90, 1), (89, 8), (88, 2)],
          [(91, 1), (88, 10)],
          [(90, 2), (89, 7), (88, 2)],
          [(92, 1), (88, 10)],
          [(90, 3), (88, 8)]]),
       (90,
         [[(90, 11)],
          [(91, 1), (90, 8), (89, 2)],
          [(92, 1), (89, 10)],
          [(91, 2), (90, 7), (89, 2)],
          [(93, 1), (89, 10)],
          [(91, 3), (89, 8)]]),
       (91,
         [[(91, 11)],
          [(92, 1), (91, 8), (90, 2)],
          [(93, 1), (90, 10)],
          [(92, 2), (91, 7), (90, 2)],
          [(94, 1), (90, 10)],
          [(92, 3), (90, 8)]]),
       (92,
         [[(92, 11)],
          [(93, 1), (92, 8), (91, 2)],
          [(94, 1), (91, 10)],
          [(93, 2), (92, 7), (91, 2)],
          [(95, 1), (91, 10)],
          [(93, 3), (91, 8)]])
     ]"

definition getOptimalCombinations :: "int \<Rightarrow> combination list" where
  "getOptimalCombinations targetRating =
     (if targetRating < 80 \<or> targetRating > 92 then []
      else case map_of OPTIMAL_SBC_COMBINATIONS targetRating of None \<Rightarrow> [] | Some cs \<Rightarrow> cs)"

text \<open>
  \<open>availableCounts\<close> is the object \<open>countRatings\<close> built from the inventory; its keys are
  the inventory's values, and \<open>parseInt(rating)\<close> of a key of the combination is the
  number \<open>rating\<close>. The loop leaves at the first rating that is short.
\<close>

fun isCombinationPossible_loop :: "(int \<times> nat) list \<Rightarrow> (jsval \<times> nat) list \<Rightarrow> bool" where
  "isCombinationPossible_loop [] availableCounts = True"
| "isCombinationPossible_loop ((rating, needed) # entries) availableCounts =
     (let available = get_or_0 availableCounts (JNum rating)
      in if available < needed then False
         else isCombinationPossible_loop entries availableCounts)"

definition isCombinationPossible :: "combination \<Rightarrow> (jsval \<times> nat) list \<Rightarrow> bool" where
  "isCombinationPossible combination availableCounts =
     isCombinationPossible_loop (object_entries combination) availableCounts"

definition combinationToArray :: "combination \<Rightarrow> int list" where
  "combinationToArray combination =
     foldl (\<lambda>result (rating, count). result @ replicate count rating) []
       (object_entries combination)"

definition calculateCombinationPoints :: "combination \<Rightarrow> int" where
  "calculateCombinationPoints combination =
     foldl (\<lambda>total (rating, count). total + rating * int count) 0 (object_entries combination)"

section \<open>Solutions and results\<close>

record squad_group =
  squad_rating :: int
  squad_count :: nat

text \<open>A field that a solution or a result does not carry is \<open>None\<close>.\<close>

record solution =
  price :: int
  squad :: "squad_group list"
  actualRating :: int
  totalRatingPoints :: int
  efficiency :: rat
  isOptimal :: "bool option"
  combinationUsed :: "int list option"

record result =
  error :: "string option"
  solutionsFound :: nat
  solutions :: "solution list"
  message :: "string option"

record calculator =
  defaultSquadSize :: int
  defaultMaxSolutions :: int

text \<open>\<open>new SBCRatingCalculator(options)\<close>; an option left out is \<open>None\<close>.\<close>

definition SBCRatingCalculator :: "int option \<Rightarrow> int option \<Rightarrow> calculator" where
  "SBCRatingCalculator optDefaultSquadSize optDefaultMaxSolutions =
     \<lparr>defaultSquadSize =
        (case optDefaultSquadSize of None \<Rightarrow> 11 | Some n \<Rightarrow> if n = 0 then 11 else n),
      defaultMaxSolutions =
        (case optDefaultMaxSolutions of None \<Rightarrow> 50 | Some n \<Rightarrow> if n = 0 then 50 else n)\<rparr>"

section \<open>The fast path (findOptimalSolutions)\<close>

text \<open>
  The arguments of the options object are the parameters; one that is left out is
  \<open>None\<close> and takes its default. The target rating is a number.
\<close>

definition optimal_solution ::
  "int \<Rightarrow> (int \<Rightarrow> int option) \<Rightarrow> combination \<Rightarrow> solution" where
  "optimal_solution targetRating priceByRating combination =
     (let ratingArray = combinationToArray combination;
          price = getPrice ratingArray priceByRating;
          totalRatingPoints = calculateCombinationPoints combination;
          squad = map (\<lambda>(rating, count). \<lparr>squad_rating = rating, squad_count = count\<rparr>)
                    (object_entries combination)
      in \<lparr>price = price,
          squad = squad,
          actualRating = targetRating,
          totalRatingPoints = totalRatingPoints,
          efficiency = of_int totalRatingPoints / of_int targetRating,
          isOptimal = Some True,
          combinationUsed = None\<rparr>)"

definition findOptimalSolutions ::
  "int \<Rightarrow> jsval list option \<Rightarrow> (int \<Rightarrow> int option) option \<Rightarrow> int option \<Rightarrow> result" where
  "findOptimalSolutions targetRating optAvailableRatings optPriceByRating optMaxSolutions =
     (let availableRatings = (case optAvailableRatings of None \<Rightarrow> [] | Some a \<Rightarrow> a);
          priceByRating = (case optPriceByRating of None \<Rightarrow> Map.empty | Some p \<Rightarrow> p);
          maxSolutions = (case optMaxSolutions of None \<Rightarrow> 10 | Some m \<Rightarrow> m);
          optimalCombinations = getOptimalCombinations targetRating
      in if length optimalCombinations = 0 then
           \<lparr>error = None, solutionsFound = 0, solutions = [],
            message = Some (''No optimal combinations available for rating ''
                        @ int_to_string targetRating
                        @ ''. Use findSquadSolutions for custom search.'')\<rparr>
         else
           let availableCounts = countRatings availableRatings;
               solutions =
                 foldl (\<lambda>solutions combination.
                          if isCombinationPossible combination availableCounts
                          then solutions @ [optimal_solution targetRating priceByRating combination]
                          else solutions)
                   [] (slice0 optimalCombinations maxSolutions)
           in \<lparr>error = None,
               solutionsFound = length solutions,
               solutions = js_sort (\<lambda>a b. totalRatingPoints a - totalRatingPoints b) solutions,
               message = None\<rparr>)"


section \<open>Input validation (SolverHelper.validateInputs)\<close>

record validation =
  valid :: bool
  errors :: "string list"

definition invalid_rating :: "jsval \<Rightarrow> bool" where
  "invalid_rating rating =
     (\<not> typeof_number rating \<or> js_lt rating (JNum 45) \<or> js_gt rating (JNum 99))"

text \<open>The two template literals of the element checks.\<close>

definition existing_message :: "nat \<Rightarrow> jsval \<Rightarrow> string" where
  "existing_message index rating =
     ''Invalid rating at index '' @ nat_digits index @ '': '' @ js_to_string rating"

definition available_message :: "nat \<Rightarrow> jsval \<Rightarrow> string" where
  "available_message index rating =
     ''Invalid available rating at index '' @ nat_digits index @ '': '' @ js_to_string rating"

text \<open>\<open>forEach((rating, index) => ...)\<close> over the elements with their indices.\<close>

definition check_existing_elements :: "string list \<Rightarrow> jsval list \<Rightarrow> string list" where
  "check_existing_elements errs ratings =
     foldl (\<lambda>errs (index, rating).
              if invalid_rating rating then errs @ [existing_message index rating] else errs)
       errs (enumerate 0 ratings)"

definition check_available_elements :: "string list \<Rightarrow> jsval list \<Rightarrow> string list" where
  "check_available_elements errs ratings =
     foldl (\<lambda>errs (index, rating).
              if invalid_rating rating then errs @ [available_message index rating] else errs)
       errs (enumerate 0 ratings)"

definition arg_truthy :: "jsarg \<Rightarrow> bool" where
  "arg_truthy v = (case v of NotArray x \<Rightarrow> truthy x | JArray _ \<Rightarrow> True)"

text \<open>
  The last check reads \<open>existingRatings.length\<close> only when \<open>existingRatings\<close> is truthy,
  where reading it cannot fail.
\<close>

definition exceeds_squad_size :: "jsarg \<Rightarrow> jsval \<Rightarrow> bool" where
  "exceeds_squad_size existingRatings squadSize =
     (arg_truthy existingRatings \<and> truthy squadSize \<and>
      (case js_length existingRatings of Inl _ \<Rightarrow> False | Inr len \<Rightarrow> js_gt len squadSize))"

definition validateInputs :: "jsval \<Rightarrow> jsarg \<Rightarrow> jsarg \<Rightarrow> jsval \<Rightarrow> validation" where
  "validateInputs targetRating existingRatings availableRatings squadSize =
     (let errs = [];
          errs =
            (if \<not> typeof_number targetRating \<or> js_lt targetRating (JNum 45)
                  \<or> js_gt targetRating (JNum 99)
             then errs @ [''Target rating must be a number between 45 and 99'']
             else errs);
          errs =
            (case existingRatings of
               NotArray _ \<Rightarrow> errs @ [''Existing ratings must be an array'']
             | JArray ratings \<Rightarrow> check_existing_elements errs ratings);
          errs =
            (case availableRatings of
               NotArray _ \<Rightarrow> errs @ [''Available ratings must be an array'']
             | JArray ratings \<Rightarrow> check_available_elements errs ratings);
          errs =
            (if \<not> typeof_number squadSize \<or> js_lt squadSize (JNum 1)
                  \<or> js_gt squadSize (JNum 23)
             then errs @ [''Squad size must be a number between 1 and 23'']
             else errs);
          errs =
            (if exceeds_squad_size existingRatings squadSize
             then errs @ [''Existing ratings exceed squad size'']
             else errs)
      in \<lparr>valid = (length errs = 0), errors = errs\<rparr>)"

section \<open>The exhaustive path (calculateSquadSolutions)\<close>

text \<open>
  \<open>findSquadSolutions\<close> calls \<open>calculateSquadSolutions\<close> after the validation has passed, so
  its arguments are numbers and arrays of numbers. On such arguments nothing in the
  body of its \<open>try\<close> raises, and the \<open>catch\<close> branch does not run.
\<close>

fun hasEnoughCards_loop :: "(int \<times> nat) list \<Rightarrow> (int \<times> nat) list \<Rightarrow> bool" where
  "hasEnoughCards_loop [] availableCounts = True"
| "hasEnoughCards_loop ((rating, needed) # entries) availableCounts =
     (if get_or_0 availableCounts rating < needed then False
      else hasEnoughCards_loop entries availableCounts)"

text \<open>
  One round of the loop over the combinations. The squad lists the keys of
  \<open>ratingCounts\<close> with the count stored under each.
\<close>

definition try_combination ::
  "int \<Rightarrow> int list \<Rightarrow> (int \<Rightarrow> int option) \<Rightarrow> (int \<times> nat) list
     \<Rightarrow> solution list \<Rightarrow> int list \<Rightarrow> solution list" where
  "try_combination targetRating existingRatings priceByRating availableCounts found
       combination =
     (let neededCounts = countRatings combination;
          hasEnoughCards = hasEnoughCards_loop (object_entries neededCounts) availableCounts
      in if \<not> hasEnoughCards then found
         else
           let fullSquad = existingRatings @ combination;
               rating = getRating (Some fullSquad)
           in if rating < targetRating then found
              else
                let ratingCounts =
                      foldl (\<lambda>acc curr. AList.update curr (get_or_0 acc curr + 1) acc) []
                        combination;
                    squad = map (\<lambda>(rating, count).
                                   \<lparr>squad_rating = rating, squad_count = count\<rparr>)
                              (object_entries ratingCounts);
                    totalRatingPoints = foldl (\<lambda>a b. a + b) 0 fullSquad;
                    price = getPrice combination priceByRating;
                    efficiency = (of_int totalRatingPoints :: rat) / of_int (max rating 1)
                in found @
                     [\<lparr>price = price,
                       squad = squad,
                       actualRating = rating,
                       totalRatingPoints = totalRatingPoints,
                       efficiency = efficiency,
                       isOptimal = None,
                       combinationUsed = Some combination\<rparr>])"

definition compare_price_first :: "solution \<Rightarrow> solution \<Rightarrow> int" where
  "compare_price_first a b =
     (if price a \<noteq> price b then price a - price b
      else totalRatingPoints a - totalRatingPoints b)"

definition compare_points_first :: "solution \<Rightarrow> solution \<Rightarrow> int" where
  "compare_points_first a b =
     (if totalRatingPoints a \<noteq> totalRatingPoints b
      then totalRatingPoints a - totalRatingPoints b
      else price a - price b)"

definition calculateSquadSolutions ::
  "int \<Rightarrow> int list \<Rightarrow> int list \<Rightarrow> (int \<Rightarrow> int option) \<Rightarrow> int \<Rightarrow> int \<Rightarrow> bool \<Rightarrow> result" where
  "calculateSquadSolutions targetRating existingRatings ratingsToTry priceByRating
       SQUAD_SIZE MAX_SOLUTIONS_TO_TAKE sortByPrice =
     (if targetRating > 99 \<or> targetRating < 45 then
        \<lparr>error = None, solutionsFound = 0, solutions = [], message = None\<rparr>
      else
        let remainingSlots = SQUAD_SIZE - int (length existingRatings)
        in if remainingSlots \<le> 0 then
             (let currentRating = getRating (Some existingRatings)
              in if currentRating \<ge> targetRating then
                   \<lparr>error = None, solutionsFound = 1,
                    solutions =
                      [\<lparr>price = 0,
                        squad = [],
                        actualRating = currentRating,
                        totalRatingPoints = foldl (\<lambda>a b. a + b) 0 existingRatings,
                        efficiency = 0,
                        isOptimal = None,
                        combinationUsed = None\<rparr>],
                    message = None\<rparr>
                 else \<lparr>error = None, solutionsFound = 0, solutions = [], message = None\<rparr>)
           else
             let availableCounts = countRatings ratingsToTry;
                 combinations = getMultisubsets ratingsToTry (nat remainingSlots);
                 solutions =
                   foldl (try_combination targetRating existingRatings priceByRating
                            availableCounts)
                     [] combinations;
                 solutions =
                   (if sortByPrice then js_sort compare_price_first solutions
                    else js_sort compare_points_first solutions);
                 solutions =
                   (if MAX_SOLUTIONS_TO_TAKE \<noteq> 0 \<and> MAX_SOLUTIONS_TO_TAKE > 0
                    then slice0 solutions MAX_SOLUTIONS_TO_TAKE
                    else solutions)
             in \<lparr>error = None, solutionsFound = length solutions, solutions = solutions,
                 message = None\<rparr>)"

section \<open>The entry point (SBCRatingCalculator.findSquadSolutions)\<close>

text \<open>
  The options are the parameters. \<open>targetRating\<close> and \<open>squadSize\<close> are values,
  \<open>existingRatings\<close> and \<open>availableRatings\<close> are values or arrays, and \<open>undefined\<close> stands
  for an option that is left out. \<open>priceByRating\<close>, \<open>maxSolutions\<close>, \<open>sortByPrice\<close> and
  \<open>useOptimalCombinations\<close> are typed, \<open>None\<close> when left out. A call either throws
  (\<open>Inl\<close>) or returns a result (\<open>Inr\<close>).
\<close>

definition default_array :: "jsarg \<Rightarrow> jsarg" where
  "default_array v = (case v of NotArray JUndefined \<Rightarrow> JArray [] | _ \<Rightarrow> v)"

definition the_number :: "jsval \<Rightarrow> int" where
  "the_number v = (case v of JNum n \<Rightarrow> n | _ \<Rightarrow> 0)"

definition the_elements :: "jsarg \<Rightarrow> jsval list" where
  "the_elements v = (case v of JArray xs \<Rightarrow> xs | NotArray _ \<Rightarrow> [])"

text \<open>
  The condition of the fast path, evaluated from the left; reading \<open>.length\<close> of \<open>null\<close>
  throws. Where the condition holds, \<open>targetRating\<close> is a number and \<open>availableRatings\<close>
  an array.
\<close>

definition fast_path_condition :: "jsval \<Rightarrow> jsarg \<Rightarrow> jsarg \<Rightarrow> bool \<Rightarrow> js_error + bool" where
  "fast_path_condition targetRating existingRatings availableRatings useOptimalCombinations =
     (case js_length existingRatings of
        Inl e \<Rightarrow> Inl e
      | Inr existingLength \<Rightarrow>
          if existingLength = JNum 0 \<and> useOptimalCombinations
               \<and> js_ge targetRating (JNum 80) \<and> js_le targetRating (JNum 92)
          then (case js_length availableRatings of
                  Inl e \<Rightarrow> Inl e
                | Inr availableLength \<Rightarrow> Inr (js_gt availableLength (JNum 50)))
          else Inr False)"

text \<open>
  The first statement of \<open>findSquadSolutions\<close>: the fast path returns the result of
  \<open>findOptimalSolutions\<close> when it holds a solution (\<open>Some\<close>), and otherwise falls through
  (\<open>None\<close>).
\<close>

definition fast_path ::
  "jsval \<Rightarrow> jsarg \<Rightarrow> jsarg \<Rightarrow> (int \<Rightarrow> int option) \<Rightarrow> int \<Rightarrow> bool
     \<Rightarrow> js_error + result option" where
  "fast_path targetRating existingRatings availableRatings priceByRating maxSolutions
       useOptimalCombinations =
     (case fast_path_condition targetRating existingRatings availableRatings
             useOptimalCombinations of
        Inl e \<Rightarrow> Inl e
      | Inr applies \<Rightarrow>
          if applies then
            (let optimalResult =
                   findOptimalSolutions (the_number targetRating)
                     (Some (the_elements availableRatings)) (Some priceByRating)
                     (Some maxSolutions)
             in if solutionsFound optimalResult > 0 then Inr (Some optimalResult)
                else Inr None)
          else Inr None)"

text \<open>The rest of \<open>findSquadSolutions\<close>: the validation, and the exhaustive search when it
  passes. The validated values are numbers and arrays of numbers.\<close>

definition validate_and_solve ::
  "jsval \<Rightarrow> jsarg \<Rightarrow> jsarg \<Rightarrow> (int \<Rightarrow> int option) \<Rightarrow> jsval \<Rightarrow> int \<Rightarrow> bool \<Rightarrow> result" where
  "validate_and_solve targetRating existingRatings availableRatings priceByRating squadSize
       maxSolutions sortByPrice =
     (let validation = validateInputs targetRating existingRatings availableRatings squadSize
      in if \<not> valid validation then
           \<lparr>error = Some (js_join '', '' (errors validation)), solutionsFound = 0,
            solutions = [], message = None\<rparr>
         else
           calculateSquadSolutions (the_number targetRating)
             (map the_number (the_elements existingRatings))
             (map the_number (the_elements availableRatings))
             priceByRating (the_number squadSize) maxSolutions sortByPrice)"

text \<open>The defaults of the destructured options.\<close>

definition default_prices :: "(int \<Rightarrow> int option) option \<Rightarrow> (int \<Rightarrow> int option)" where
  "default_prices optPriceByRating =
     (case optPriceByRating of None \<Rightarrow> Map.empty | Some p \<Rightarrow> p)"

definition default_squad_size :: "calculator \<Rightarrow> jsval \<Rightarrow> jsval" where
  "default_squad_size this optSquadSize =
     (case optSquadSize of JUndefined \<Rightarrow> JNum (defaultSquadSize this) | _ \<Rightarrow> optSquadSize)"

definition default_max_solutions :: "calculator \<Rightarrow> int option \<Rightarrow> int" where
  "default_max_solutions this optMaxSolutions =
     (case optMaxSolutions of None \<Rightarrow> defaultMaxSolutions this | Some m \<Rightarrow> m)"

definition default_true :: "bool option \<Rightarrow> bool" where
  "default_true optFlag = (case optFlag of None \<Rightarrow> True | Some b \<Rightarrow> b)"

definition findSquadSolutions ::
  "calculator \<Rightarrow> jsval \<Rightarrow> jsarg \<Rightarrow> jsarg \<Rightarrow> (int \<Rightarrow> int option) option \<Rightarrow> jsval
     \<Rightarrow> int option \<Rightarrow> bool option \<Rightarrow> bool option \<Rightarrow> js_error + result" where
  "findSquadSolutions this targetRating optExistingRatings optAvailableRatings optPriceByRating
       optSquadSize optMaxSolutions optSortByPrice optUseOptimalCombinations =
     (let existingRatings = default_array optExistingRatings;
          availableRatings = default_array optAvailableRatings;
          priceByRating = default_prices optPriceByRating;
          squadSize = default_squad_size this optSquadSize;
          maxSolutions = default_max_solutions this optMaxSolutions;
          sortByPrice = default_true optSortByPrice;
          useOptimalCombinations = default_true optUseOptimalCombinations
      in case fast_path targetRating existingRatings availableRatings priceByRating
                maxSolutions useOptimalCombinations of
           Inl e \<Rightarrow> Inl e
         | Inr (Some optimalResult) \<Rightarrow> Inr optimalResult
         | Inr None \<Rightarrow>
             Inr (validate_and_solve targetRating existingRatings availableRatings
                    priceByRating squadSize maxSolutions sortByPrice))"

section \<open>Notions of the specification\<close>

text \<open>The members a solution's squad groups stand for, each rating as often as its count.\<close>

definition squad_members :: "solution \<Rightarrow> int list" where
  "squad_members s = concat (map (\<lambda>g. replicate (squad_count g) (squad_rating g)) (squad s))"



text \<open>
  The enumerated validation checks, as the specification words them: a target rating
  that is a number in [45, 99], sequences whose every element is a number in [45, 99],
  a squad size that is a number in [1, 23], and no more existing ratings than the
  squad size.
\<close>

definition spec_rating_ok :: "jsval \<Rightarrow> bool" where
  "spec_rating_ok v = (case v of JNum n \<Rightarrow> 45 \<le> n \<and> n \<le> 99 | _ \<Rightarrow> False)"


definition spec_ratings_ok :: "jsarg \<Rightarrow> bool" where
  "spec_ratings_ok v = (case v of JArray xs \<Rightarrow> list_all spec_rating_ok xs | NotArray _ \<Rightarrow> False)"

definition spec_squad_size_ok :: "jsval \<Rightarrow> bool" where
  "spec_squad_size_ok v = (case v of JNum n \<Rightarrow> 1 \<le> n \<and> n \<le> 23 | _ \<Rightarrow> False)"

definition spec_longer_than :: "jsarg \<Rightarrow> jsval \<Rightarrow> bool" where
  "spec_longer_than existing squadSize =
     (case (existing, squadSize) of (JArray xs, JNum n) \<Rightarrow> n < int (length xs) | _ \<Rightarrow> False)"

definition spec_violation :: "jsval \<Rightarrow> jsarg \<Rightarrow> jsarg \<Rightarrow> jsval \<Rightarrow> bool" where
  "spec_violation targetRating existingRatings availableRatings squadSize =
     (\<not> spec_rating_ok targetRating \<or> \<not> spec_ratings_ok existingRatings
      \<or> \<not> spec_ratings_ok availableRatings \<or> \<not> spec_squad_size_ok squadSize
      \<or> spec_longer_than existingRatings squadSize)"

section \<open>The rating formula is the reference formula\<close>


lemma foldl_add_sum_list: "foldl (\<lambda>acc curr. acc + curr) a xs = a + sum_list (xs :: int list)"
  by (induction xs arbitrary: a) auto








section \<open>The multiset enumerator\<close>

lemma multisubsetsImpl_0: "multisubsetsImpl a 0 = [[]]"
  by (simp add: multisubsetsImpl.simps)

lemma multisubsetsImpl_Nil: "0 < n \<Longrightarrow> multisubsetsImpl [] n = []"
  by (simp add: multisubsetsImpl.simps)

lemma multisubsetsImpl_Cons:
  "0 < n \<Longrightarrow> multisubsetsImpl (x # rest) n =
     concat (map (\<lambda>i. map (\<lambda>xs. replicate i x @ xs) (multisubsetsImpl rest (n - i))) [0..<Suc n])"
  by (subst multisubsetsImpl.simps) (simp add: prependNTimes_def)

lemma multisubsetsImpl_Cons_mem:
  "0 < n \<Longrightarrow> ys \<in> set (multisubsetsImpl (x # rest) n) \<longleftrightarrow>
     (\<exists>i zs. i \<le> n \<and> zs \<in> set (multisubsetsImpl rest (n - i)) \<and> ys = replicate i x @ zs)"
  by (auto simp: multisubsetsImpl_Cons less_Suc_eq_le simp del: upt_Suc)

lemma multisubsetsImpl_length: "ys \<in> set (multisubsetsImpl a n) \<Longrightarrow> length ys = n"
proof (induction a arbitrary: n ys)
  case Nil
  then show ?case by (cases "n = 0") (auto simp: multisubsetsImpl_0 multisubsetsImpl_Nil)
next
  case (Cons x rest)
  show ?case
  proof (cases "n = 0")
    case True
    with Cons.prems show ?thesis by (simp add: multisubsetsImpl_0)
  next
    case False
    with Cons.prems obtain i zs where i: "i \<le> n" and zs: "zs \<in> set (multisubsetsImpl rest (n - i))"
      and ys: "ys = replicate i x @ zs"
      by (auto simp: multisubsetsImpl_Cons_mem)
    from Cons.IH[OF zs] i ys show ?thesis by simp
  qed
qed

lemma multisubsetsImpl_subset: "ys \<in> set (multisubsetsImpl a n) \<Longrightarrow> set ys \<subseteq> set a"
proof (induction a arbitrary: n ys)
  case Nil
  then show ?case by (cases "n = 0") (auto simp: multisubsetsImpl_0 multisubsetsImpl_Nil)
next
  case (Cons x rest)
  show ?case
  proof (cases "n = 0")
    case True
    with Cons.prems show ?thesis by (simp add: multisubsetsImpl_0)
  next
    case False
    with Cons.prems obtain i zs where zs: "zs \<in> set (multisubsetsImpl rest (n - i))"
      and ys: "ys = replicate i x @ zs"
      by (auto simp: multisubsetsImpl_Cons_mem)
    from Cons.IH[OF zs] ys show ?thesis by auto
  qed
qed

lemma length_concat_map_sum:
  "length (concat (map f [0..<m])) = (\<Sum>i<m. length (f i))"
  by (induction m) (simp_all add: lessThan_Suc)

lemma sum_rev_index: "(\<Sum>i<Suc n. g (n - i)) = (\<Sum>j\<le>n. (g j :: nat))"
proof -
  have "(\<Sum>i<Suc n. g (n - i)) = (\<Sum>i\<le>n. g (n - i))"
    by (simp add: lessThan_Suc_atMost)
  also have "\<dots> = (\<Sum>j\<le>n. g j)"
    by (rule sum.reindex_bij_witness[where i = "\<lambda>j. n - j" and j = "\<lambda>i. n - i"]) auto
  finally show ?thesis .
qed

lemma stars_and_bars_step:
  "(\<Sum>j\<le>n. (m + j - 1) choose j) = (m + n) choose n"
proof (cases m)
  case 0
  have "(\<Sum>j\<le>n. (j - 1) choose j) = (\<Sum>j\<le>n. if j = 0 then 1 else 0)"
    by (rule sum.cong) auto
  then show ?thesis using 0 by simp
next
  case (Suc r)
  then show ?thesis using sum_choose_lower[of r n] by simp
qed

lemma multisubsetsImpl_count: "length (multisubsetsImpl a n) = (length a + n - 1) choose n"
proof (induction a arbitrary: n)
  case Nil
  then show ?case by (cases "n = 0") (auto simp: multisubsetsImpl_0 multisubsetsImpl_Nil)
next
  case (Cons x rest)
  show ?case
  proof (cases "n = 0")
    case True
    then show ?thesis by (simp add: multisubsetsImpl_0)
  next
    case False
    then have "length (multisubsetsImpl (x # rest) n)
        = (\<Sum>i<Suc n. (length rest + (n - i) - 1) choose (n - i))"
      by (simp add: multisubsetsImpl_Cons length_concat_map_sum Cons.IH del: upt_Suc)
    also have "\<dots> = (\<Sum>j\<le>n. (length rest + j - 1) choose j)"
      by (rule sum_rev_index)
    also have "\<dots> = (length rest + n) choose n"
      by (rule stars_and_bars_step)
    finally show ?thesis by simp
  qed
qed


lemma distinct_concat_blocks:
  assumes "distinct js"
    and "\<And>i. i \<in> set js \<Longrightarrow> distinct (f i)"
    and "\<And>i j. i \<in> set js \<Longrightarrow> j \<in> set js \<Longrightarrow> i \<noteq> j \<Longrightarrow> set (f i) \<inter> set (f j) = {}"
  shows "distinct (concat (map f js))"
  using assms
proof (induction js)
  case Nil
  then show ?case by simp
next
  case (Cons j js)
  have "distinct (concat (map f js))"
    using Cons.IH Cons.prems by auto
  moreover have "distinct (f j)" using Cons.prems(2) by simp
  moreover have "set (f j) \<inter> set (concat (map f js)) = {}"
  proof -
    have "set (f j) \<inter> set (f i) = {}" if "i \<in> set js" for i
      using Cons.prems(1) Cons.prems(3)[of j i] that by auto
    then show ?thesis by auto
  qed
  ultimately show ?case by simp
qed

lemma block_count:
  assumes "x \<notin> set rest" and "M \<in> set (map mset (map (\<lambda>xs. replicate i x @ xs) (multisubsetsImpl rest k)))"
  shows "count M x = i"
proof -
  from assms(2) obtain zs where zs: "zs \<in> set (multisubsetsImpl rest k)"
    and M: "M = mset (replicate i x @ zs)" by auto
  from multisubsetsImpl_subset[OF zs] assms(1) have "x \<notin> set zs" by auto
  then show ?thesis using M by (simp add: count_eq_zero_iff)
qed

lemma multisubsetsImpl_distinct:
  "distinct a \<Longrightarrow> distinct (map mset (multisubsetsImpl a n))"
proof (induction a arbitrary: n)
  case Nil
  then show ?case by (cases "n = 0") (auto simp: multisubsetsImpl_0 multisubsetsImpl_Nil)
next
  case (Cons x rest)
  then have x: "x \<notin> set rest" and rest: "distinct rest" by auto
  show ?case
  proof (cases "n = 0")
    case True
    then show ?thesis by (simp add: multisubsetsImpl_0)
  next
    case False
    let ?f = "\<lambda>i. map mset (map (\<lambda>xs. replicate i x @ xs) (multisubsetsImpl rest (n - i)))"
    have eq: "map mset (multisubsetsImpl (x # rest) n) = concat (map ?f [0..<Suc n])"
      using False by (simp add: multisubsetsImpl_Cons map_concat comp_def del: upt_Suc)
    have block: "distinct (?f i)" for i
    proof -
      have "?f i = map (\<lambda>M. replicate_mset i x + M) (map mset (multisubsetsImpl rest (n - i)))"
        by simp
      moreover have "inj_on (\<lambda>M. replicate_mset i x + M) A" for A
        by (rule inj_onI) simp
      ultimately show ?thesis
        using Cons.IH[OF rest, of "n - i"] by (simp only: distinct_map)
    qed
    have disj: "set (?f i) \<inter> set (?f j) = {}" if "i \<noteq> j" for i j
    proof (rule ccontr)
      assume "set (?f i) \<inter> set (?f j) \<noteq> {}"
      then obtain M where "M \<in> set (?f i)" "M \<in> set (?f j)" by blast
      then have "count M x = i" "count M x = j"
        using block_count[OF x] by blast+
      with that show False by simp
    qed
    show ?thesis
      unfolding eq by (rule distinct_concat_blocks) (use block disj in auto)
  qed
qed

text \<open>
  Claim C4. \<open>getMultisubsets a k\<close> yields exactly C(|a| + k - 1, k) sequences, each of
  length \<open>k\<close>, and when the elements of \<open>a\<close> are pairwise distinct no two of them are equal
  as multisets. For \<open>k = 0\<close> it yields the empty sequence and nothing else; for an empty
  alphabet and \<open>k > 0\<close> it yields nothing.
\<close>

theorem C4:
  "length (getMultisubsets a k) = (length a + k - 1) choose k
   \<and> (\<forall>s \<in> set (getMultisubsets a k). length s = k)
   \<and> (distinct a \<longrightarrow> distinct (map mset (getMultisubsets a k)))
   \<and> getMultisubsets a 0 = [[]]
   \<and> (0 < k \<longrightarrow> getMultisubsets [] k = [])"
  by (simp add: getMultisubsets_def multisubsetsImpl_count multisubsetsImpl_length
      multisubsetsImpl_distinct multisubsetsImpl_0 multisubsetsImpl_Nil)

theorem C4_witness:
  "length (getMultisubsets [81, 82, 83 :: int] 2) = (3 + 2 - 1) choose 2
   \<and> list_all (\<lambda>s. length s = 2) (getMultisubsets [81, 82, 83 :: int] 2)
   \<and> distinct [81, 82, 83 :: int]
   \<and> distinct (map mset (getMultisubsets [81, 82, 83 :: int] 2))
   \<and> getMultisubsets [81, 82, 83 :: int] 0 = [[]]
   \<and> getMultisubsets ([] :: int list) 2 = []"
proof -
  have d: "distinct [81, 82, 83 :: int]" and p: "0 < (2::nat)" by simp_all
  have l: "length [81, 82, 83 :: int] = 3" by simp
  note t = C4[of "[81, 82, 83 :: int]" 2, unfolded l]
  from t d p show ?thesis unfolding list_all_iff by blast
qed

section \<open>The fast path and the combination table\<close>

lemma get_or_0_eq: "get_or_0 obj k = (case map_of obj k of None \<Rightarrow> 0 | Some c \<Rightarrow> c)"
  by (simp add: get_or_0_def split: option.splits)

lemma get_or_0_update:
  "get_or_0 (AList.update k v obj) k' = (if k' = k then v else get_or_0 obj k')"
  by (simp add: get_or_0_eq update_conv')

lemma countRatings_foldl:
  "get_or_0 (foldl (\<lambda>acc rating. AList.update rating (get_or_0 acc rating + 1) acc) acc xs) k
     = get_or_0 acc k + count_list xs k"
  by (induction xs arbitrary: acc) (auto simp: get_or_0_update)

lemma get_or_0_countRatings: "get_or_0 (countRatings xs) k = count_list xs k"
  unfolding countRatings_def countRatings_foldl by (simp add: get_or_0_def)

lemma mset_insert_by: "mset (insert_by cmp x xs) = add_mset x (mset xs)"
  by (induction xs) auto

lemma mset_js_sort_foldl:
  "mset (foldl (\<lambda>sorted_prefix x. insert_by cmp x sorted_prefix) acc xs) = mset acc + mset xs"
  by (induction xs arbitrary: acc) (auto simp: mset_insert_by)

lemma mset_js_sort: "mset (js_sort cmp xs) = mset xs"
  by (simp add: js_sort_def mset_js_sort_foldl)

lemma set_js_sort: "set (js_sort cmp xs) = set xs"
  using mset_js_sort[of cmp xs] by (metis set_mset_mset)

lemma length_js_sort: "length (js_sort cmp xs) = length xs"
  using mset_js_sort[of cmp xs] by (metis size_mset)

lemma foldl_push_if:
  "foldl (\<lambda>acc x. if P x then acc @ [f x] else acc) acc xs = acc @ map f (filter P xs)"
  by (induction xs arbitrary: acc) auto

lemma isCombinationPossible_loop_all:
  "isCombinationPossible_loop entries counts
     = list_all (\<lambda>(rating, needed). needed \<le> get_or_0 counts (JNum rating)) entries"
  by (induction entries counts rule: isCombinationPossible_loop.induct) (auto simp: Let_def)

lemma solutions_findOptimalSolutions:
  "solutions (findOptimalSolutions t a p m) =
     js_sort (\<lambda>a b. totalRatingPoints a - totalRatingPoints b)
       (map (optimal_solution t (case p of None \<Rightarrow> Map.empty | Some q \<Rightarrow> q))
          (filter (\<lambda>c. isCombinationPossible c
                     (countRatings (case a of None \<Rightarrow> [] | Some xs \<Rightarrow> xs)))
             (slice0 (getOptimalCombinations t) (case m of None \<Rightarrow> 10 | Some k \<Rightarrow> k))))"
  by (auto simp: findOptimalSolutions_def Let_def foldl_push_if js_sort_def slice0_def)

lemma actualRating_optimal_solution: "actualRating (optimal_solution t p c) = t"
  by (simp add: optimal_solution_def Let_def)

lemma optimal_actualRating:
  "s \<in> set (solutions (findOptimalSolutions t a p m)) \<Longrightarrow> actualRating s = t"
  by (auto simp: solutions_findOptimalSolutions set_js_sort actualRating_optimal_solution)

lemma object_entries_84_79: "object_entries [(84, Suc 0), (79, 10)] = [(79, 10), (84, Suc 0)]"
  by (simp add: object_entries_def is_array_index_def)

lemma getOptimalCombinations_80:
  "getOptimalCombinations 80 =
     [[(82, 1), (81, 2), (80, 8)], [(83, 1), (80, 10)], [(82, 2), (80, 9)], [(81, 4), (80, 7)],
      [(84, 1), (79, 10)], [(82, 3), (79, 8)]]"
  by (simp add: getOptimalCombinations_def OPTIMAL_SBC_COMBINATIONS_def)

lemma fill_84_79:
  "squad_members (optimal_solution 80 p [(84, 1), (79, 10)]) = replicate 10 79 @ [84]"
  by (simp add: squad_members_def optimal_solution_def Let_def object_entries_84_79)

lemma rating_84_79: "getRating (Some (replicate 10 79 @ [84])) = 79"
  by code_simp


lemma optimal_80_invalid:
  assumes "1 \<le> count_list inventory (JNum 84)" and "10 \<le> count_list inventory (JNum 79)"
    and "m = None \<or> (\<exists>k. m = Some k \<and> 5 \<le> k)"
  shows "\<exists>s \<in> set (solutions (findOptimalSolutions 80 (Some inventory) p m)).
           actualRating s = 80 \<and> length (squad_members s) = 11
           \<and> getRating (Some (squad_members s)) = 79"
proof -
  let ?c = "[(84, 1), (79, 10)] :: combination"
  let ?q = "case p of None \<Rightarrow> Map.empty | Some q \<Rightarrow> q"
  have poss: "isCombinationPossible ?c (countRatings inventory)"
    using assms(1,2)
    by (simp add: isCombinationPossible_def isCombinationPossible_loop_all object_entries_84_79
        get_or_0_countRatings)
  have "?c \<in> set (slice0 (getOptimalCombinations 80) (case m of None \<Rightarrow> 10 | Some k \<Rightarrow> k))"
  proof -
    have "?c \<in> set (take 5 (getOptimalCombinations 80))"
      by (simp add: getOptimalCombinations_80)
    moreover have "set (take 5 (getOptimalCombinations 80))
        \<subseteq> set (slice0 (getOptimalCombinations 80) (case m of None \<Rightarrow> 10 | Some k \<Rightarrow> k))"
      using assms(3) by (auto simp: slice0_def intro!: set_take_subset_set_take)
    ultimately show ?thesis by blast
  qed
  with poss have "optimal_solution 80 ?q ?c \<in> set (solutions (findOptimalSolutions 80 (Some inventory) p m))"
    by (simp add: solutions_findOptimalSolutions set_js_sort)
  moreover have "actualRating (optimal_solution 80 ?q ?c) = 80"
    by (rule actualRating_optimal_solution)
  moreover have "length (squad_members (optimal_solution 80 ?q ?c)) = 11"
    by (simp only: fill_84_79) simp
  moreover have "getRating (Some (squad_members (optimal_solution 80 ?q ?c))) = 79"
    by (simp only: fill_84_79 rating_84_79)
  ultimately show ?thesis by blast
qed


text \<open>
  Claim C10. Every solution of \<open>findOptimalSolutions\<close> carries the target rating as its
  \<open>actualRating\<close>; the rating formula is not applied to the fill. So for the target 80 and
  an inventory with at least one 84 and ten 79s, a returned solution has \<open>actualRating\<close> 80
  while the rating of its 11 members is 79.
\<close>

theorem C10:
  "(\<forall>s \<in> set (solutions (findOptimalSolutions t a p m)). actualRating s = t)
   \<and> (1 \<le> count_list inventory (JNum 84) \<and> 10 \<le> count_list inventory (JNum 79) \<longrightarrow>
        (\<exists>s \<in> set (solutions (findOptimalSolutions 80 (Some inventory) p None)).
           actualRating s = 80 \<and> length (squad_members s) = 11
           \<and> getRating (Some (squad_members s)) = 79))"
  using optimal_actualRating[of _ t a p m] optimal_80_invalid[of inventory None p] by blast

theorem C10_witness:
  "list_all (\<lambda>s. actualRating s = 80)
     (solutions (findOptimalSolutions 80 (Some (map JNum (84 # replicate 10 79))) None None))
   \<and> 1 \<le> count_list (map JNum (84 # replicate 10 79)) (JNum 84)
   \<and> 10 \<le> count_list (map JNum (84 # replicate 10 79)) (JNum 79)
   \<and> (\<exists>s \<in> set (solutions (findOptimalSolutions 80 (Some (map JNum (84 # replicate 10 79)))
                          None None)).
         actualRating s = 80 \<and> length (squad_members s) = 11
         \<and> getRating (Some (squad_members s)) = 79)"
proof -
  have c: "1 \<le> count_list (map JNum (84 # replicate 10 79)) (JNum 84)"
    "10 \<le> count_list (map JNum (84 # replicate 10 79)) (JNum 79)"
    by code_simp+
  from C10[of 80 "Some (map JNum (84 # replicate 10 79))" None None
      "map JNum (84 # replicate 10 79)"] c
  show ?thesis unfolding list_all_iff by blast
qed

text \<open>
  Claim C2. With the target 83, 15 copies of 83, 10 of 82, 50 of 81 and 25 of 84, the
  prices of the claim and \<open>maxSolutions\<close> left at its default, the first solution of
  \<open>findOptimalSolutions\<close> has 908 rating points, not 910: it is the table entry of three
  84s and eight 82s, which the rating formula rates 82. The solution of 910 points
  comes second.
\<close>

theorem C2_first_solution:
  "map (\<lambda>s. (actualRating s, totalRatingPoints s, getRating (Some (squad_members s))))
     (solutions (findOptimalSolutions 83
        (Some (map JNum (replicate 15 83 @ replicate 10 82 @ replicate 50 81 @ replicate 25 84)))
        (Some (map_of [(81, 500), (82, 800), (83, 1000), (84, 2000)])) None))
   = [(83, 908, 82), (83, 910, 83), (83, 911, 83), (83, 913, 83)]"
  by code_simp

text \<open>With \<open>maxSolutions\<close> 5, as the test of the repository calls it, the first solution has
  910 points.\<close>

lemma findOptimalSolutions_83_max_5:
  "map (\<lambda>s. (actualRating s, totalRatingPoints s))
     (solutions (findOptimalSolutions 83
        (Some (map JNum (replicate 15 83 @ replicate 10 82 @ replicate 50 81 @ replicate 25 84)))
        (Some (map_of [(81, 500), (82, 800), (83, 1000), (84, 2000)])) (Some 5)))
   = [(83, 910), (83, 911), (83, 913)]"
  by code_simp

text \<open>
  Claim C3. In the table every combination's counts sum to 11, but for no target rating
  from 80 to 92 is the list ascending by total rating points; for 83 the totals are
  911, 910, 905, 913, 906, 908.
\<close>

theorem C3_table_not_sorted:
  "map calculateCombinationPoints (getOptimalCombinations 83) = [911, 910, 905, 913, 906, 908]
   \<and> list_all
        (\<lambda>t. \<not> sorted (map calculateCombinationPoints (getOptimalCombinations t))
           \<and> list_all (\<lambda>c. sum_list (map snd c) = 11) (getOptimalCombinations t))
        [80, 81, 82, 83, 84, 85, 86, 87, 88, 89, 90, 91, 92]"
  by code_simp

text \<open>
  Claim C9. A call whose \<open>existingRatings\<close> is \<open>null\<close> throws: the condition of the fast
  path reads \<open>existingRatings.length\<close> before the validation and outside the \<open>try\<close>.
\<close>

theorem C9_null_existing_throws:
  "findSquadSolutions (SBCRatingCalculator None None) (JNum 85) (NotArray JNull)
     (JArray [JNum 84, JNum 85, JNum 86]) None JUndefined None None None = Inl TypeError"
  by code_simp

section \<open>Validation\<close>

lemma invalid_rating_iff: "invalid_rating v \<longleftrightarrow> \<not> spec_rating_ok v"
  by (cases v)
    (auto simp: invalid_rating_def spec_rating_ok_def typeof_number_def js_lt_def js_gt_def
      ToNumber_def)

lemma invalid_size_iff:
  "(\<not> typeof_number v \<or> js_lt v (JNum 1) \<or> js_gt v (JNum 23)) \<longleftrightarrow> \<not> spec_squad_size_ok v"
  by (cases v)
    (auto simp: spec_squad_size_ok_def typeof_number_def js_lt_def js_gt_def ToNumber_def)

lemma invalid_target_iff:
  "(\<not> typeof_number v \<or> js_lt v (JNum 45) \<or> js_gt v (JNum 99)) \<longleftrightarrow> \<not> spec_rating_ok v"
  using invalid_rating_iff[of v] by (simp add: invalid_rating_def)

lemma foldl_existing_messages:
  "foldl (\<lambda>errs (index, rating).
            if invalid_rating rating then errs @ [existing_message index rating] else errs)
       errs ps
     = errs @ map (\<lambda>e. existing_message (fst e) (snd e))
                (filter (\<lambda>e. \<not> spec_rating_ok (snd e)) ps)"
  by (induction ps arbitrary: errs) (auto simp: invalid_rating_iff)

lemma foldl_available_messages:
  "foldl (\<lambda>errs (index, rating).
            if invalid_rating rating then errs @ [available_message index rating] else errs)
       errs ps
     = errs @ map (\<lambda>e. available_message (fst e) (snd e))
                (filter (\<lambda>e. \<not> spec_rating_ok (snd e)) ps)"
  by (induction ps arbitrary: errs) (auto simp: invalid_rating_iff)

lemma check_existing_elements_eq:
  "check_existing_elements errs xs
     = errs @ map (\<lambda>e. existing_message (fst e) (snd e)) (filter (\<lambda>e. \<not> spec_rating_ok (snd e)) (enumerate 0 xs))"
  unfolding check_existing_elements_def by (rule foldl_existing_messages)

lemma check_available_elements_eq:
  "check_available_elements errs xs
     = errs @ map (\<lambda>e. available_message (fst e) (snd e)) (filter (\<lambda>e. \<not> spec_rating_ok (snd e)) (enumerate 0 xs))"
  unfolding check_available_elements_def by (rule foldl_available_messages)

lemma errors_validateInputs:
  "errors (validateInputs t e a s) =
     (if spec_rating_ok t then [] else [''Target rating must be a number between 45 and 99''])
     @ (case e of NotArray _ \<Rightarrow> [''Existing ratings must be an array'']
        | JArray xs \<Rightarrow> map (\<lambda>e. existing_message (fst e) (snd e)) (filter (\<lambda>e. \<not> spec_rating_ok (snd e)) (enumerate 0 xs)))
     @ (case a of NotArray _ \<Rightarrow> [''Available ratings must be an array'']
        | JArray xs \<Rightarrow> map (\<lambda>e. available_message (fst e) (snd e)) (filter (\<lambda>e. \<not> spec_rating_ok (snd e)) (enumerate 0 xs)))
     @ (if spec_squad_size_ok s then [] else [''Squad size must be a number between 1 and 23''])
     @ (if exceeds_squad_size e s then [''Existing ratings exceed squad size''] else [])"
  unfolding validateInputs_def Let_def invalid_target_iff invalid_size_iff
  by (simp add: check_existing_elements_eq check_available_elements_eq split: jsarg.splits)

lemma valid_validateInputs: "valid (validateInputs t e a s) \<longleftrightarrow> errors (validateInputs t e a s) = []"
  by (simp add: validateInputs_def Let_def)

lemma filter_invalid_empty:
  "filter (\<lambda>e. \<not> spec_rating_ok (snd e)) (enumerate 0 xs) = [] \<longleftrightarrow> list_all spec_rating_ok xs"
proof -
  have "filter (\<lambda>e. \<not> spec_rating_ok (snd e)) (enumerate 0 xs) = []
      \<longleftrightarrow> (\<forall>e \<in> set (enumerate 0 xs). spec_rating_ok (snd e))"
    by (simp add: filter_empty_conv)
  also have "\<dots> \<longleftrightarrow> (\<forall>x \<in> snd ` set (enumerate 0 xs). spec_rating_ok x)" by auto
  also have "snd ` set (enumerate 0 xs) = set xs"
    by (metis list.set_map map_snd_enumerate)
  finally show ?thesis by (simp add: list_all_iff)
qed

lemma exceeds_squad_size_iff:
  "exceeds_squad_size e s \<longleftrightarrow>
     (case (e, s) of (JArray xs, JNum n) \<Rightarrow> n \<noteq> 0 \<and> n < int (length xs) | _ \<Rightarrow> False)"
  by (auto simp: exceeds_squad_size_def arg_truthy_def truthy_def js_length_def js_gt_def js_lt_def
      ToNumber_def split: jsarg.splits jsval.splits)

lemma valid_iff_no_violation:
  "valid (validateInputs t e a s) \<longleftrightarrow> \<not> spec_violation t e a s"
  unfolding valid_validateInputs errors_validateInputs spec_violation_def
  by (auto simp: filter_invalid_empty exceeds_squad_size_iff spec_ratings_ok_def
      spec_longer_than_def spec_squad_size_ok_def split: jsarg.splits jsval.splits)


section \<open>Sorting and truncation\<close>







lemma set_slice0: "set (slice0 xs n) \<subseteq> set xs"
  by (auto simp: slice0_def dest: in_set_takeD)


lemma calculateSquadSolutions_full:
  assumes "45 \<le> t" "t \<le> 99" "sz \<le> int (length ex)"
  shows "calculateSquadSolutions t ex av p sz m sp =
    (if t \<le> getRating (Some ex) then
       \<lparr>error = None, solutionsFound = 1,
        solutions = [\<lparr>price = 0, squad = [], actualRating = getRating (Some ex),
                      totalRatingPoints = sum_list ex, efficiency = 0, isOptimal = None,
                      combinationUsed = None\<rparr>],
        message = None\<rparr>
     else \<lparr>error = None, solutionsFound = 0, solutions = [], message = None\<rparr>)"
  using assms by (auto simp: calculateSquadSolutions_def Let_def foldl_add_sum_list)





section \<open>Feasibility of the exhaustive search\<close>

lemma hasEnoughCards_loop_all:
  "hasEnoughCards_loop entries counts
     = list_all (\<lambda>(rating, needed). needed \<le> get_or_0 counts rating) entries"
  by (induction entries counts rule: hasEnoughCards_loop.induct) auto

lemma try_combination_cases:
  "try_combination t ex p counts found comb = found
   \<or> (\<exists>s. try_combination t ex p counts found comb = found @ [s]
          \<and> hasEnoughCards_loop (object_entries (countRatings comb)) counts
          \<and> squad s = map (\<lambda>(rating, count). \<lparr>squad_rating = rating, squad_count = count\<rparr>)
                         (object_entries (countRatings comb)))"
  by (simp add: try_combination_def Let_def countRatings_def)

lemma try_combination_fold:
  "s \<in> set (foldl (try_combination t ex p counts) found combs) \<Longrightarrow>
     s \<in> set found
     \<or> (\<exists>comb \<in> set combs.
          hasEnoughCards_loop (object_entries (countRatings comb)) counts
          \<and> squad s = map (\<lambda>(rating, count). \<lparr>squad_rating = rating, squad_count = count\<rparr>)
                         (object_entries (countRatings comb)))"
proof (induction combs arbitrary: found)
  case Nil
  then show ?case by simp
next
  case (Cons comb combs)
  from Cons.prems have "s \<in> set (foldl (try_combination t ex p counts)
      (try_combination t ex p counts found comb) combs)" by simp
  from Cons.IH[OF this] try_combination_cases[of t ex p counts found comb]
  show ?case by auto
qed

lemma squad_feasible:
  assumes "hasEnoughCards_loop (object_entries needed) (countRatings av)"
    and "g \<in> set (map (\<lambda>(rating, count). \<lparr>squad_rating = rating, squad_count = count\<rparr>)
                    (object_entries needed))"
  shows "squad_count g \<le> count_list av (squad_rating g)"
  using assms
  by (auto simp: hasEnoughCards_loop_all list_all_iff get_or_0_countRatings)

lemma calculateSquadSolutions_subset:
  "s \<in> set (solutions (calculateSquadSolutions t ex av p sz m sp)) \<Longrightarrow>
     squad s = []
     \<or> s \<in> set (foldl (try_combination t ex p (countRatings av)) []
                     (getMultisubsets av (nat (sz - int (length ex)))))"
  using set_slice0 
  by (fastforce simp: calculateSquadSolutions_def Let_def set_js_sort split: if_splits)

lemma calculateSquadSolutions_feasible:
  assumes "s \<in> set (solutions (calculateSquadSolutions t ex av p sz m sp))"
    and "g \<in> set (squad s)"
  shows "squad_count g \<le> count_list av (squad_rating g)"
proof -
  from calculateSquadSolutions_subset[OF assms(1)] assms(2)
  have "s \<in> set (foldl (try_combination t ex p (countRatings av)) []
                     (getMultisubsets av (nat (sz - int (length ex)))))" by auto
  from try_combination_fold[OF this] obtain comb where
    "hasEnoughCards_loop (object_entries (countRatings comb)) (countRatings av)"
    "squad s = map (\<lambda>(rating, count). \<lparr>squad_rating = rating, squad_count = count\<rparr>)
                 (object_entries (countRatings comb))" by auto
  with assms(2) show ?thesis using squad_feasible by metis
qed

lemma optimal_feasible:
  assumes "s \<in> set (solutions (findOptimalSolutions t (Some inventory) p m))"
    and "g \<in> set (squad s)"
  shows "squad_count g \<le> count_list inventory (JNum (squad_rating g))"
proof -
  from assms(1) obtain c where c: "isCombinationPossible c (countRatings inventory)"
    and s: "s = optimal_solution t (case p of None \<Rightarrow> Map.empty | Some q \<Rightarrow> q) c"
    by (auto simp: solutions_findOptimalSolutions set_js_sort)
  from s assms(2) obtain rating needed where e: "(rating, needed) \<in> set (object_entries c)"
    and g: "g = \<lparr>squad_rating = rating, squad_count = needed\<rparr>"
    by (auto simp: optimal_solution_def Let_def)
  from c e have "needed \<le> count_list inventory (JNum rating)"
    by (auto simp: isCombinationPossible_def isCombinationPossible_loop_all list_all_iff
        get_or_0_countRatings)
  with g show ?thesis by simp
qed

lemma count_list_the_number:
  "list_all spec_rating_ok xs \<Longrightarrow> count_list (map the_number xs) r = count_list xs (JNum r)"
  by (induction xs) (auto simp: spec_rating_ok_def the_number_def split: jsval.splits)

lemma valid_shapes:
  assumes "valid (validateInputs t e a s)"
  obtains tn exs avs sn where "t = JNum tn" "45 \<le> tn" "tn \<le> 99"
    "e = JArray exs" "list_all spec_rating_ok exs"
    "a = JArray avs" "list_all spec_rating_ok avs"
    "s = JNum sn" "1 \<le> sn" "sn \<le> 23" "int (length exs) \<le> sn"
proof -
  from assms have nv: "\<not> spec_violation t e a s" by (simp add: valid_iff_no_violation)
  then obtain tn where t: "t = JNum tn" "45 \<le> tn" "tn \<le> 99"
    by (cases t) (auto simp: spec_violation_def spec_rating_ok_def)
  from nv obtain exs where e: "e = JArray exs" "list_all spec_rating_ok exs"
    by (cases e) (auto simp: spec_violation_def spec_ratings_ok_def)
  from nv obtain avs where a: "a = JArray avs" "list_all spec_rating_ok avs"
    by (cases a) (auto simp: spec_violation_def spec_ratings_ok_def)
  from nv obtain sn where s: "s = JNum sn" "1 \<le> sn" "sn \<le> 23"
    by (cases s) (auto simp: spec_violation_def spec_squad_size_ok_def)
  from nv e s have "int (length exs) \<le> sn"
    by (auto simp: spec_violation_def spec_longer_than_def)
  with t e a s show thesis using that by blast
qed

lemma findSquadSolutions_cases:
  "findSquadSolutions c t e a p s m sp u =
     (case fast_path t (default_array e) (default_array a) (default_prices p)
             (default_max_solutions c m) (default_true u) of
        Inl err \<Rightarrow> Inl err
      | Inr (Some optimalResult) \<Rightarrow> Inr optimalResult
      | Inr None \<Rightarrow>
          Inr (validate_and_solve t (default_array e) (default_array a) (default_prices p)
                 (default_squad_size c s) (default_max_solutions c m) (default_true sp)))"
  by (simp add: findSquadSolutions_def Let_def)

lemma fast_path_Some:
  "fast_path t e a p m u = Inr (Some r) \<Longrightarrow>
     r = findOptimalSolutions (the_number t) (Some (the_elements a)) (Some p) (Some m)"
  by (auto simp: fast_path_def Let_def split: sum.splits if_splits)

lemma fast_path_condition_shapes:
  assumes "fast_path_condition t e a u = Inr True"
  obtains tn avs where "t = JNum tn" "80 \<le> tn" "tn \<le> 92" "a = JArray avs" "50 < length avs"
proof -
  from assms have r: "js_ge t (JNum 80)" "js_le t (JNum 92)"
    and l: "case js_length a of Inl _ \<Rightarrow> False | Inr n \<Rightarrow> js_gt n (JNum 50)"
    by (auto simp: fast_path_condition_def split: sum.splits if_splits)
  from r obtain tn where t: "t = JNum tn" "80 \<le> tn" "tn \<le> 92"
    by (cases t) (auto simp: js_ge_def js_le_def ToNumber_def)
  from l obtain avs where a: "a = JArray avs" "50 < length avs"
    by (cases a)
      (auto simp: js_length_def js_gt_def js_lt_def ToNumber_def split: jsval.splits)
  from t a show thesis by (rule that)
qed

text \<open>A call throws only on a \<open>null\<close> in place of one of the two arrays.\<close>

lemma findSquadSolutions_returns:
  assumes "e \<noteq> NotArray JNull" and "a \<noteq> NotArray JNull"
  shows "\<exists>r. findSquadSolutions c t e a p s m sp u = Inr r"
proof -
  have len: "\<exists>n. js_length (default_array v) = Inr n" if "v \<noteq> NotArray JNull" for v
    using that
    by (cases v) (auto simp: js_length_def default_array_def split: jsval.splits)
  from len[OF assms(1)] len[OF assms(2)]
  have "\<exists>b. fast_path_condition t (default_array e) (default_array a) (default_true u) = Inr b"
    by (auto simp: fast_path_condition_def)
  then have "\<exists>x. fast_path t (default_array e) (default_array a) (default_prices p)
      (default_max_solutions c m) (default_true u) = Inr x"
    by (auto simp: fast_path_def Let_def)
  then show ?thesis
    by (auto simp: findSquadSolutions_cases split: option.splits)
qed

lemma validate_and_solve_feasible:
  assumes "sol \<in> set (solutions (validate_and_solve t e a p s m sp))" and "g \<in> set (squad sol)"
  shows "squad_count g \<le> count_list (the_elements a) (JNum (squad_rating g))"
proof (cases "valid (validateInputs t e a s)")
  case False
  with assms show ?thesis by (simp add: validate_and_solve_def Let_def)
next
  case True
  then obtain avs where a: "a = JArray avs" "list_all spec_rating_ok avs"
    by (rule valid_shapes)
  from True assms(1) have "sol \<in> set (solutions (calculateSquadSolutions (the_number t)
      (map the_number (the_elements e)) (map the_number (the_elements a)) p (the_number s) m sp))"
    by (simp add: validate_and_solve_def Let_def)
  from calculateSquadSolutions_feasible[OF this assms(2)] a
  show ?thesis by (simp add: the_elements_def count_list_the_number)
qed


text \<open>
  Claim C6. Every solution that \<open>findSquadSolutions\<close> returns is feasible against the
  inventory: a rating that its fill holds \<open>c\<close> times occurs at least \<open>c\<close> times in
  \<open>availableRatings\<close>. This holds for the exhaustive search and for the fast path alike.
\<close>

theorem C6:
  "findSquadSolutions c t e a p s m sp u = Inr r \<Longrightarrow> sol \<in> set (solutions r) \<Longrightarrow>
     g \<in> set (squad sol) \<Longrightarrow>
     squad_count g \<le> count_list (the_elements (default_array a)) (JNum (squad_rating g))"
  unfolding findSquadSolutions_cases
  using validate_and_solve_feasible optimal_feasible fast_path_Some
  by (fastforce split: sum.splits option.splits)


theorem C6_witness:
  "case findSquadSolutions (SBCRatingCalculator None None) (JNum 45)
          (JArray [JNum 99, JNum 99]) (JArray [JNum 99, JNum 98]) None (JNum 3) None None None of
     Inl _ \<Rightarrow> False
   | Inr r \<Rightarrow>
       length (solutions r) = 2
       \<and> list_all (\<lambda>sol. squad sol \<noteq> []
            \<and> list_all (\<lambda>g. squad_count g
                    \<le> count_list [JNum 99, JNum 98] (JNum (squad_rating g))) (squad sol))
           (solutions r)"
proof -
  let ?call = "findSquadSolutions (SBCRatingCalculator None None) (JNum 45)
          (JArray [JNum 99, JNum 99]) (JArray [JNum 99, JNum 98]) None (JNum 3) None None None"
  have "case ?call of Inl _ \<Rightarrow> False
      | Inr r \<Rightarrow> length (solutions r) = 2 \<and> list_all (\<lambda>sol. squad sol \<noteq> []) (solutions r)"
    by code_simp
  then obtain r where r: "?call = Inr r" and n: "length (solutions r) = 2"
    "list_all (\<lambda>sol. squad sol \<noteq> []) (solutions r)"
    by (cases ?call) auto
  have d: "the_elements (default_array (JArray [JNum 99, JNum 98])) = [JNum 99, JNum 98]"
    by (simp add: the_elements_def default_array_def)
  have "squad_count g \<le> count_list [JNum 99, JNum 98] (JNum (squad_rating g))"
    if "sol \<in> set (solutions r)" "g \<in> set (squad sol)" for sol g
    using C6[OF r that] unfolding d .
  with n show ?thesis unfolding r by (simp add: list_all_iff)
qed

section \<open>The order and the number of the solutions\<close>





section \<open>A roster that is already full\<close>

text \<open>
  Claim C7, as the code has it. When the validation passes and no slot remains
  (\<open>squadSize - existingRatings.length \<le> 0\<close>), the result holds exactly one solution if
  the rating of \<open>existingRatings\<close> reaches the target, with price 0, an empty squad, that
  rating as \<open>actualRating\<close>, the sum of \<open>existingRatings\<close> as \<open>totalRatingPoints\<close> and
  \<open>efficiency\<close> 0; otherwise it holds no solution.
\<close>

theorem C7_amended:
  assumes "valid (validateInputs t (default_array e) (default_array a) (default_squad_size c s))"
    and "the_number (default_squad_size c s)
           - int (length (the_elements (default_array e))) \<le> 0"
  shows "findSquadSolutions c t e a p s m sp u =
     Inr (if the_number t \<le> getRating (Some (map the_number (the_elements (default_array e))))
          then \<lparr>error = None, solutionsFound = 1,
                solutions =
                  [\<lparr>price = 0, squad = [],
                    actualRating =
                      getRating (Some (map the_number (the_elements (default_array e)))),
                    totalRatingPoints = sum_list (map the_number (the_elements (default_array e))),
                    efficiency = 0, isOptimal = None, combinationUsed = None\<rparr>],
                message = None\<rparr>
          else \<lparr>error = None, solutionsFound = 0, solutions = [], message = None\<rparr>)"
proof -
  from assms(1) obtain tn exs sn where t: "t = JNum tn" "45 \<le> tn" "tn \<le> 99"
    and e: "default_array e = JArray exs"
    and s: "default_squad_size c s = JNum sn" "1 \<le> sn"
    by (rule valid_shapes)
  from assms(2) e s have len: "sn \<le> int (length exs)" 
    by (simp add: the_number_def the_elements_def)
  with s have "exs \<noteq> []" by auto
  then have fp: "fast_path t (default_array e) (default_array a) (default_prices p)
             (default_max_solutions c m) (default_true u) = Inr None"
    by (simp add: e fast_path_def fast_path_condition_def js_length_def)
  have "findSquadSolutions c t e a p s m sp u =
      Inr (validate_and_solve t (default_array e) (default_array a) (default_prices p)
             (default_squad_size c s) (default_max_solutions c m) (default_true sp))"
    by (simp add: findSquadSolutions_cases fp)
  also have "validate_and_solve t (default_array e) (default_array a) (default_prices p)
             (default_squad_size c s) (default_max_solutions c m) (default_true sp)
      = calculateSquadSolutions tn (map the_number exs)
          (map the_number (the_elements (default_array a))) (default_prices p) sn
          (default_max_solutions c m) (default_true sp)"
    using assms(1) by (simp add: validate_and_solve_def Let_def t e s the_number_def the_elements_def)
  finally show ?thesis
    using t len
    by (simp add: calculateSquadSolutions_full e the_number_def the_elements_def)
qed


theorem C7_witness:
  "valid (validateInputs (JNum 45) (JArray [JNum 99, JNum 99, JNum 99]) (JArray []) (JNum 3))
   \<and> the_number (JNum 3) - int (length [JNum 99, JNum 99, JNum 99]) \<le> 0
   \<and> findSquadSolutions (SBCRatingCalculator None None) (JNum 45)
        (JArray [JNum 99, JNum 99, JNum 99]) (NotArray JUndefined) None (JNum 3) None None None
      = Inr \<lparr>error = None, solutionsFound = 1,
             solutions = [\<lparr>price = 0, squad = [], actualRating = 46, totalRatingPoints = 297,
                           efficiency = 0, isOptimal = None, combinationUsed = None\<rparr>],
             message = None\<rparr>"
proof -
  let ?c = "SBCRatingCalculator None None"
  have d: "default_array (JArray [JNum 99, JNum 99, JNum 99]) = JArray [JNum 99, JNum 99, JNum 99]"
    "default_array (NotArray JUndefined) = JArray []"
    "default_squad_size ?c (JNum 3) = JNum 3"
    "the_elements (JArray [JNum 99, JNum 99, JNum 99]) = [JNum 99, JNum 99, JNum 99]"
    by (simp_all add: default_array_def default_squad_size_def the_elements_def)
  have v: "valid (validateInputs (JNum 45) (JArray [JNum 99, JNum 99, JNum 99]) (JArray [])
      (JNum 3))"
    by code_simp
  have l: "the_number (JNum 3) - int (length [JNum 99, JNum 99, JNum 99]) \<le> 0"
    by (simp add: the_number_def)
  have g: "getRating (Some (map the_number [JNum 99, JNum 99, JNum 99])) = 46"
    "the_number (JNum 45) = 45" "sum_list (map the_number [JNum 99, JNum 99, JNum 99]) = 297"
    by code_simp+
  from C7_amended[of "JNum 45" "JArray [JNum 99, JNum 99, JNum 99]" "NotArray JUndefined" ?c
      "JNum 3" None None None None, unfolded d, OF v l] v l
  show ?thesis unfolding g by simp
qed

text \<open>
  The claim as stated fails in the efficiency: the solution of a full roster carries the
  efficiency 0, not \<open>totalRatingPoints / max(actualRating, 1)\<close>.
\<close>

theorem C7_counterexample:
  "valid (validateInputs (JNum 45) (JArray [JNum 99, JNum 99, JNum 99]) (JArray []) (JNum 3))
   \<and> the_number (JNum 3) - int (length [JNum 99, JNum 99, JNum 99]) \<le> 0
   \<and> 45 \<le> getRating (Some [99, 99, 99])
   \<and> (case findSquadSolutions (SBCRatingCalculator None None) (JNum 45)
             (JArray [JNum 99, JNum 99, JNum 99]) (NotArray JUndefined) None (JNum 3) None None
             None of
        Inl _ \<Rightarrow> False
      | Inr r \<Rightarrow>
          (case solutions r of
             [sol] \<Rightarrow> efficiency sol = 0
                 \<and> of_int (totalRatingPoints sol) / of_int (max (actualRating sol) 1)
                     = (297 / 46 :: rat)
                 \<and> efficiency sol
                     \<noteq> of_int (totalRatingPoints sol) / of_int (max (actualRating sol) 1)
           | _ \<Rightarrow> False))"
  by code_simp

section \<open>Validation failures\<close>









end
